theory Spec2Isabelle
  imports Complex_Main
begin

section \<open>EPOCH1 master pack: swarm coherence and consensus engine\<close>

text \<open>
  A shallow embedding of \<^verbatim>\<open>EpochCore_ARCPI/epoch1_master_pack.py\<close>: the swarm node
  record, the flash sync engine (entanglement construction, swarm coherence, cascade
  synchronisation) and the consensus engine (weighted vote, PHI-weighted average).

  Numbers. A finite Python float is idealised as a \<^typ>\<open>real\<close>: arithmetic on finite
  values is exact, with no rounding and no overflow, and signed zeros are not told apart.
  The weight and the coherence of a node are finite floats. The scores handed to
  \<^verbatim>\<open>phi_weighted\<close> may also be infinite or NaN, so they have the type \<open>pyfloat\<close>
  below. Printing is not modelled. The \<^verbatim>\<open>await asyncio.sleep\<close> of the cascade is a
  scheduling point with no effect on a single caller and is not modelled either.
\<close>

subsection \<open>Constants and enumerations\<close>

definition PHI :: real where
  "PHI = 1618033988749895 / 1000000000000000"

datatype NodeLayer = INFRASTRUCTURE | APPLICATION | INTELLIGENCE | ORCHESTRATION | QUANTUM

datatype SyncScale = MICRO | MESO | MACRO | META

text \<open>The value of a scale member: its name and its multiplier.\<close>

fun scale_value :: "SyncScale \<Rightarrow> string \<times> real" where
  "scale_value MICRO = (''micro'', 1)"
| "scale_value MESO = (''meso'', PHI)"
| "scale_value MACRO = (''macro'', PHI ^ 2)"
| "scale_value META = (''meta'', PHI ^ 3)"


subsection \<open>Errors and Python arithmetic\<close>

datatype py_error = ZeroDivisionError

text \<open>\<^verbatim>\<open>sum(...)\<close> adds from the left, starting at 0.\<close>

definition py_sum :: "real list \<Rightarrow> real" where
  "py_sum xs = foldl (+) 0 xs"

text \<open>\<^verbatim>\<open>a / b\<close> on floats raises when the divisor is zero.\<close>

definition py_div :: "real \<Rightarrow> real \<Rightarrow> py_error + real" where
  "py_div a b = (if b = 0 then Inl ZeroDivisionError else Inr (a / b))"

text \<open>\<^verbatim>\<open>min(a, b)\<close> returns its first argument unless the second is smaller.\<close>

definition py_min :: "real \<Rightarrow> real \<Rightarrow> real" where
  "py_min a b = (if b < a then b else a)"

subsection \<open>Dictionaries\<close>

text \<open>
  A dictionary is an association list in insertion order. Storing under a key that is
  present replaces the value and keeps the position of the key.
\<close>

fun dict_set :: "('k \<times> 'v) list \<Rightarrow> 'k \<Rightarrow> 'v \<Rightarrow> ('k \<times> 'v) list" where
  "dict_set [] k v = [(k, v)]"
| "dict_set ((k', v') # d) k v =
     (if k' = k then (k', v) # d else (k', v') # dict_set d k v)"

definition dict_keys :: "('k \<times> 'v) list \<Rightarrow> 'k list" where
  "dict_keys d = map fst d"

definition dict_values :: "('k \<times> 'v) list \<Rightarrow> 'v list" where
  "dict_values d = map snd d"

subsection \<open>Swarm nodes\<close>

typedecl py_any

record SwarmNode =
  node_id :: string
  name :: string
  layer :: NodeLayer
  weight :: real
  coherence :: real
  entanglement :: "string list"
  state :: "(string \<times> py_any) list"

definition phi_weight :: "SwarmNode \<Rightarrow> real" where
  "phi_weight n = weight n * PHI"

text \<open>The constructor with the defaults of the dataclass.\<close>

definition new_SwarmNode :: "string \<Rightarrow> string \<Rightarrow> NodeLayer \<Rightarrow> real \<Rightarrow> SwarmNode" where
  "new_SwarmNode i nm l w =
     \<lparr>node_id = i, name = nm, layer = l, weight = w, coherence = 1,
      entanglement = [], state = []\<rparr>"

subsection \<open>Flash sync engine\<close>

record FlashSyncEngine =
  nodes :: "(string \<times> SwarmNode) list"
  coherence_matrix :: "(string \<times> real) list"
  sync_state :: string

text \<open>
  \<^verbatim>\<open>_build_entanglement\<close>. The body of the outer loop for the node at position \<open>i\<close>:
  the two appends for the neighbours in matrix order, then, for a quantum node, the inner
  loop over all items, which appends every other quantum key not yet in the list.
\<close>

definition link_adjacent :: "string list \<Rightarrow> nat \<Rightarrow> string list \<Rightarrow> string list" where
  "link_adjacent node_ids i ent =
     (let ent1 = (if i > 0 then ent @ [node_ids ! (i - 1)] else ent)
      in if int i < int (length node_ids) - 1 then ent1 @ [node_ids ! (i + 1)] else ent1)"

fun link_quantum :: "(string \<times> SwarmNode) list \<Rightarrow> string \<Rightarrow> string list \<Rightarrow> string list" where
  "link_quantum [] nid ent = ent"
| "link_quantum ((other_id, other) # items) nid ent =
     link_quantum items nid
       (if layer other = QUANTUM \<and> other_id \<noteq> nid
        then (if other_id \<notin> set ent then ent @ [other_id] else ent)
        else ent)"

definition entangle_node ::
  "(string \<times> SwarmNode) list \<Rightarrow> string list \<Rightarrow> nat \<Rightarrow> SwarmNode \<Rightarrow> SwarmNode" where
  "entangle_node d node_ids i node =
     (let ent1 = link_adjacent node_ids i (entanglement node);
          ent2 = (if layer node = QUANTUM then link_quantum d (node_id node) ent1 else ent1)
      in node\<lparr>entanglement := ent2\<rparr>)"

text \<open>
  One pass of the outer loop mutates the node at position \<open>i\<close> of the dictionary; the
  later passes see the mutated dictionary.
\<close>

definition entangle_step ::
  "string list \<Rightarrow> (string \<times> SwarmNode) list \<Rightarrow> nat \<Rightarrow> (string \<times> SwarmNode) list" where
  "entangle_step node_ids d i =
     d[i := (fst (d ! i), entangle_node d node_ids i (snd (d ! i)))]"

definition build_entanglement :: "FlashSyncEngine \<Rightarrow> FlashSyncEngine" where
  "build_entanglement e =
     (let node_ids = dict_keys (nodes e)
      in e\<lparr>nodes := foldl (entangle_step node_ids) (nodes e) [0..<length (nodes e)]\<rparr>)"

text \<open>\<^verbatim>\<open>__init__\<close>: the dictionary comprehension over the given nodes, then the links.\<close>

definition nodes_dict :: "SwarmNode list \<Rightarrow> (string \<times> SwarmNode) list" where
  "nodes_dict ns = foldl (\<lambda>d n. dict_set d (node_id n) n) [] ns"

definition new_FlashSyncEngine :: "SwarmNode list \<Rightarrow> FlashSyncEngine" where
  "new_FlashSyncEngine ns =
     build_entanglement \<lparr>nodes = nodes_dict ns, coherence_matrix = [], sync_state = ''idle''\<rparr>"

text \<open>\<^verbatim>\<open>calculate_coherence\<close>.\<close>

definition calculate_coherence :: "FlashSyncEngine \<Rightarrow> py_error + real" where
  "calculate_coherence e =
     (let total = py_sum (map (\<lambda>n. coherence n * phi_weight n) (dict_values (nodes e)));
          max_possible = py_sum (map phi_weight (dict_values (nodes e)))
      in if max_possible > 0 then py_div total max_possible else Inr 0)"

text \<open>\<^verbatim>\<open>cascade_sync\<close>: the loop over the nodes, then the swarm coherence.\<close>

fun sync_nodes :: "real \<Rightarrow> (string \<times> SwarmNode) list \<Rightarrow> (string \<times> SwarmNode) list" where
  "sync_nodes multiplier [] = []"
| "sync_nodes multiplier ((k, node) # d) =
     (k, node\<lparr>coherence := py_min 1 (coherence node * (1 + 0.1 * multiplier))\<rparr>)
       # sync_nodes multiplier d"

definition cascade_sync :: "SyncScale \<Rightarrow> FlashSyncEngine \<Rightarrow> py_error + (real \<times> FlashSyncEngine)" where
  "cascade_sync scale e =
     (let scale_name = fst (scale_value scale);
          multiplier = snd (scale_value scale);
          e1 = e\<lparr>sync_state := ''syncing_'' @ scale_name\<rparr>;
          e2 = e1\<lparr>nodes := sync_nodes multiplier (nodes e1)\<rparr>
      in (case calculate_coherence e2 of
            Inl err \<Rightarrow> Inl err
          | Inr c \<Rightarrow> Inr (c, e2\<lparr>sync_state := ''idle''\<rparr>)))"



subsection \<open>Floats that may be infinite or NaN\<close>










subsection \<open>Consensus engine\<close>

text \<open>
  The engine holds the list of nodes it was built with, and nothing else: its methods take
  that list. \<^verbatim>\<open>quantum_vote\<close> hashes \<^verbatim>\<open>str(proposal) + node.id\<close> with the built-in
  string hash, which is fixed for one process and not given by the source; the hash is a
  parameter, and the proposal is given by its string.
\<close>

record VoteResult =
  approved :: bool
  yes_weight :: real
  no_weight :: real
  algorithm :: string

definition quantum_vote :: "(string \<Rightarrow> int) \<Rightarrow> SwarmNode list \<Rightarrow> string \<Rightarrow> VoteResult" where
  "quantum_vote py_hash ns proposal =
     (let votes = map (\<lambda>node.
            (py_hash (proposal @ node_id node) mod 2 = 0,
             if layer node = QUANTUM then phi_weight node else weight node)) ns;
          yes = py_sum (map snd (filter (\<lambda>(v, w). v) votes));
          no = py_sum (map snd (filter (\<lambda>(v, w). \<not> v) votes))
      in \<lparr>approved = yes > no, yes_weight = yes, no_weight = no,
          algorithm = ''quantum_vote''\<rparr>)"


subsection \<open>Quantities named by the specification\<close>




text \<open>
  The weighted vote as the specification words it: a node votes yes when the hash of the
  proposal string followed by its identity is even, and its vote counts with the derived
  weight for a quantum node and with the plain weight otherwise.
\<close>

definition votes_yes :: "(string \<Rightarrow> int) \<Rightarrow> string \<Rightarrow> SwarmNode \<Rightarrow> bool" where
  "votes_yes py_hash proposal n = even (py_hash (proposal @ node_id n))"

definition vote_weight :: "SwarmNode \<Rightarrow> real" where
  "vote_weight n = (if layer n = QUANTUM then weight n * PHI else weight n)"

text \<open>
  The two link rules as the specification words them. The ring neighbours of position \<open>i\<close>
  are the identities at the positions \<open>i - 1\<close> and \<open>i + 1\<close> that exist; the quantum clique of
  a quantum node is every other quantum node of the matrix, and is empty for other nodes.
\<close>

definition ring_neighbours :: "SwarmNode list \<Rightarrow> nat \<Rightarrow> string set" where
  "ring_neighbours ns i =
     set (map (\<lambda>j. node_id (ns ! j)) (filter (\<lambda>j. j + 1 = i \<or> j = i + 1) [0..<length ns]))"

definition quantum_clique :: "SwarmNode list \<Rightarrow> nat \<Rightarrow> string set" where
  "quantum_clique ns i =
     (if layer (ns ! i) = QUANTUM
      then set (map node_id
                 (filter (\<lambda>m. layer m = QUANTUM \<and> node_id m \<noteq> node_id (ns ! i)) ns))
      else {})"


subsection \<open>Example inputs\<close>

text \<open>
  The three-node matrix of the specification's end-to-end example, and a matrix of two
  plain nodes of equal weight.
\<close>

definition example_matrix :: "SwarmNode list" where
  "example_matrix =
     [new_SwarmNode ''A'' ''Analyzer'' INFRASTRUCTURE 1,
      new_SwarmNode ''B'' ''Builder'' QUANTUM 1,
      new_SwarmNode ''C'' ''Coordinator'' QUANTUM 1]"

definition example_pair :: "SwarmNode list" where
  "example_pair =
     [new_SwarmNode ''A'' ''Analyzer'' INTELLIGENCE 1,
      new_SwarmNode ''B'' ''Builder'' INFRASTRUCTURE 1]"

text \<open>
  Engines given by their state: one whose second node is at coherence 1/2, one whose second
  node is at coherence 0, one with a single node of weight zero at coherence 1/2, one with
  a single node of weight zero and one with a single node of negative weight.
\<close>

definition example_engine :: FlashSyncEngine where
  "example_engine =
     \<lparr>nodes = [(''A'', new_SwarmNode ''A'' ''Analyzer'' INFRASTRUCTURE 1),
               (''B'', (new_SwarmNode ''B'' ''Builder'' QUANTUM 1)\<lparr>coherence := 1 / 2\<rparr>)],
      coherence_matrix = [], sync_state = ''idle''\<rparr>"





text \<open>A hash under which the proposal \<open>p\<close> is accepted by node \<open>A\<close> alone.\<close>

definition example_hash :: "string \<Rightarrow> int" where
  "example_hash s = (if s = ''pA'' then 4 else 7)"

section \<open>Basic facts\<close>

lemma foldl_add_sum_list: "foldl (+) a xs = a + sum_list xs" for a :: real
  by (induction xs arbitrary: a) (simp_all add: add.assoc)

lemma py_sum_sum_list: "py_sum xs = sum_list xs"
  by (simp add: py_sum_def foldl_add_sum_list)

lemma py_min_min: "py_min a b = min a b"
  by (simp add: py_min_def min_def)

lemma PHI_gt_1: "1 < PHI"
  by (simp add: PHI_def)

lemma PHI_pos: "0 < PHI"
  by (simp add: PHI_def)

lemma multiplier_pos: "0 < snd (scale_value scale)"
  using PHI_pos by (cases scale) simp_all

lemma sync_nodes_map:
  "sync_nodes m d =
     map (\<lambda>kn. (fst kn, (snd kn)\<lparr>coherence := py_min 1 (coherence (snd kn) * (1 + 0.1 * m))\<rparr>)) d"
  by (induction m d rule: sync_nodes.induct) simp_all

lemma length_sync_nodes: "length (sync_nodes m d) = length d"
  by (simp add: sync_nodes_map)

lemma nth_sync_nodes:
  "i < length d \<Longrightarrow> sync_nodes m d ! i =
     (fst (d ! i), (snd (d ! i))\<lparr>coherence := min 1 (coherence (snd (d ! i)) * (1 + 0.1 * m))\<rparr>)"
  by (simp add: sync_nodes_map py_min_min)

text \<open>The guard of \<^verbatim>\<open>calculate_coherence\<close> keeps the division away from zero.\<close>

lemma calculate_coherence_Inr:
  "calculate_coherence e =
     Inr (if 0 < sum_list (map phi_weight (map snd (nodes e)))
          then sum_list (map (\<lambda>n. coherence n * phi_weight n) (map snd (nodes e)))
                 / sum_list (map phi_weight (map snd (nodes e)))
          else 0)"
  by (simp add: calculate_coherence_def py_sum_sum_list py_div_def dict_values_def Let_def)

lemma cascade_sync_Inr:
  "\<exists>c. cascade_sync scale e =
     Inr (c, e\<lparr>nodes := sync_nodes (snd (scale_value scale)) (nodes e), sync_state := ''idle''\<rparr>)
     \<and> calculate_coherence (e\<lparr>nodes := sync_nodes (snd (scale_value scale)) (nodes e)\<rparr>) = Inr c"
  by (simp add: cascade_sync_def Let_def calculate_coherence_Inr)

section \<open>Cascade synchronisation\<close>

text \<open>
  Claim C1. Let every node of the engine have a coherence in [0,1]. Then a call of
  \<^verbatim>\<open>cascade_sync\<close> at any of the four scales returns; the multiplier of the scale is
  strictly positive; the engine has the same nodes under the same keys; and the new coherence
  of each node is min(1.0, coherence * (1 + 0.1 * multiplier)), which is not below the old
  coherence and not above 1.0.
\<close>

theorem cascade_sync_coherence:
  assumes "\<forall>n \<in> set (dict_values (nodes e)). 0 \<le> coherence n \<and> coherence n \<le> 1"
  shows "\<exists>c e'. cascade_sync scale e = Inr (c, e')
     \<and> 0 < snd (scale_value scale)
     \<and> length (nodes e') = length (nodes e)
     \<and> (\<forall>i < length (nodes e).
           fst (nodes e' ! i) = fst (nodes e ! i)
         \<and> coherence (snd (nodes e' ! i))
             = min 1 (coherence (snd (nodes e ! i)) * (1 + 0.1 * snd (scale_value scale)))
         \<and> coherence (snd (nodes e ! i)) \<le> coherence (snd (nodes e' ! i))
         \<and> coherence (snd (nodes e' ! i)) \<le> 1)"
proof -
  let ?m = "snd (scale_value scale)"
  define e' where "e' = e\<lparr>nodes := sync_nodes ?m (nodes e), sync_state := ''idle''\<rparr>"
  obtain c where c: "cascade_sync scale e = Inr (c, e')"
    unfolding e'_def using cascade_sync_Inr by blast
  have m: "0 < ?m" by (rule multiplier_pos)
  have len: "length (nodes e') = length (nodes e)"
    by (simp add: e'_def length_sync_nodes)
  have step: "x \<le> min 1 (x * (1 + 0.1 * ?m))" if "0 \<le> x" "x \<le> 1" for x :: real
  proof -
    have "0 \<le> x * (0.1 * ?m)" using that m by simp
    then have "x \<le> x * (1 + 0.1 * ?m)" by (simp add: algebra_simps)
    with that show ?thesis by simp
  qed
  have each: "fst (nodes e' ! i) = fst (nodes e ! i)
         \<and> coherence (snd (nodes e' ! i))
             = min 1 (coherence (snd (nodes e ! i)) * (1 + 0.1 * ?m))
         \<and> coherence (snd (nodes e ! i)) \<le> coherence (snd (nodes e' ! i))
         \<and> coherence (snd (nodes e' ! i)) \<le> 1" if i: "i < length (nodes e)" for i
  proof -
    from i have "snd (nodes e ! i) \<in> set (dict_values (nodes e))"
      by (simp add: dict_values_def)
    with assms have b: "0 \<le> coherence (snd (nodes e ! i))" "coherence (snd (nodes e ! i)) \<le> 1"
      by auto
    have eq: "nodes e' ! i = (fst (nodes e ! i),
        (snd (nodes e ! i))\<lparr>coherence := min 1 (coherence (snd (nodes e ! i)) * (1 + 0.1 * ?m))\<rparr>)"
      using i by (simp add: e'_def nth_sync_nodes)
    show ?thesis
      unfolding eq using step[OF b] by simp
  qed
  from c m len each show ?thesis by blast
qed

theorem cascade_sync_coherence_witness:
  "map coherence (dict_values (nodes example_engine)) = [1, 1 / 2]
   \<and> (\<exists>c e'. cascade_sync MESO example_engine = Inr (c, e')
     \<and> 0 < snd (scale_value MESO)
     \<and> length (nodes e') = length (nodes example_engine)
     \<and> (\<forall>i < length (nodes example_engine).
           fst (nodes e' ! i) = fst (nodes example_engine ! i)
         \<and> coherence (snd (nodes e' ! i))
             = min 1 (coherence (snd (nodes example_engine ! i)) * (1 + 0.1 * snd (scale_value MESO)))
         \<and> coherence (snd (nodes example_engine ! i)) \<le> coherence (snd (nodes e' ! i))
         \<and> coherence (snd (nodes e' ! i)) \<le> 1))"
proof -
  have h: "\<forall>n \<in> set (dict_values (nodes example_engine)). 0 \<le> coherence n \<and> coherence n \<le> 1"
    by (simp add: example_engine_def dict_values_def new_SwarmNode_def)
  have v: "map coherence (dict_values (nodes example_engine)) = [1, 1 / 2]"
    by (simp add: example_engine_def dict_values_def new_SwarmNode_def)
  from v cascade_sync_coherence [OF h, of MESO] show ?thesis by (rule conjI)
qed

text \<open>
  Claim C10. A call of \<^verbatim>\<open>cascade_sync\<close> at any scale returns, and the engine it leaves has
  the same keys in the same order and, node by node, the same id, name, layer, weight,
  entanglement and state as before; the coherence matrix of the engine is unchanged too.
  Only the coherence of the nodes and the sync state are written.
\<close>

theorem cascade_sync_frame:
  "\<exists>c e'. cascade_sync scale e = Inr (c, e')
     \<and> dict_keys (nodes e') = dict_keys (nodes e)
     \<and> map node_id (dict_values (nodes e')) = map node_id (dict_values (nodes e))
     \<and> map name (dict_values (nodes e')) = map name (dict_values (nodes e))
     \<and> map layer (dict_values (nodes e')) = map layer (dict_values (nodes e))
     \<and> map weight (dict_values (nodes e')) = map weight (dict_values (nodes e))
     \<and> map entanglement (dict_values (nodes e')) = map entanglement (dict_values (nodes e))
     \<and> map state (dict_values (nodes e')) = map state (dict_values (nodes e))
     \<and> coherence_matrix e' = coherence_matrix e"
proof -
  obtain c where "cascade_sync scale e =
     Inr (c, e\<lparr>nodes := sync_nodes (snd (scale_value scale)) (nodes e), sync_state := ''idle''\<rparr>)"
    using cascade_sync_Inr by blast
  then show ?thesis
    by (simp add: sync_nodes_map dict_keys_def dict_values_def comp_def)
qed

theorem cascade_sync_frame_witness:
  "\<exists>c e'. cascade_sync MACRO example_engine = Inr (c, e')
     \<and> dict_keys (nodes e') = [''A'', ''B'']
     \<and> map node_id (dict_values (nodes e')) = [''A'', ''B'']
     \<and> map layer (dict_values (nodes e')) = [INFRASTRUCTURE, QUANTUM]
     \<and> map weight (dict_values (nodes e')) = [1, 1]
     \<and> map entanglement (dict_values (nodes e')) = [[], []]"
proof -
  have ex: "dict_keys (nodes example_engine) = [''A'', ''B'']"
    "map node_id (dict_values (nodes example_engine)) = [''A'', ''B'']"
    "map layer (dict_values (nodes example_engine)) = [INFRASTRUCTURE, QUANTUM]"
    "map weight (dict_values (nodes example_engine)) = [1, 1]"
    "map entanglement (dict_values (nodes example_engine)) = [[], []]"
    by (simp_all add: example_engine_def dict_keys_def dict_values_def new_SwarmNode_def)
  from cascade_sync_frame [of MACRO example_engine] obtain c e' where
    "cascade_sync MACRO example_engine = Inr (c, e')"
    "dict_keys (nodes e') = dict_keys (nodes example_engine)"
    "map node_id (dict_values (nodes e')) = map node_id (dict_values (nodes example_engine))"
    "map layer (dict_values (nodes e')) = map layer (dict_values (nodes example_engine))"
    "map weight (dict_values (nodes e')) = map weight (dict_values (nodes example_engine))"
    "map entanglement (dict_values (nodes e')) = map entanglement (dict_values (nodes example_engine))"
    by (elim exE conjE)
  then show ?thesis
    unfolding ex by (intro exI conjI)
qed

text \<open>
  The sync state is written and never read: a call on an engine whose state says that a
  stage is running does what it does on an idle engine.
\<close>

lemma cascade_sync_ignores_sync_state:
  "cascade_sync scale (e\<lparr>sync_state := s\<rparr>) = cascade_sync scale e"
  by (simp add: cascade_sync_def Let_def calculate_coherence_Inr)

section \<open>Swarm coherence\<close>








section \<open>PHI-weighted average\<close>
























section \<open>Weighted vote\<close>

lemma votes_filter_yes:
  "map snd (filter (\<lambda>(v, w). v) (map (\<lambda>n. (f n, g n)) ns)) = map g (filter f ns)"
  by (induction ns) simp_all

lemma votes_filter_no:
  "map snd (filter (\<lambda>(v, w). \<not> v) (map (\<lambda>n. (f n, g n)) ns)) = map g (filter (\<lambda>n. \<not> f n) ns)"
  by (induction ns) simp_all

lemma quantum_vote_weights:
  "yes_weight (quantum_vote h ns p) = (\<Sum>n\<leftarrow>filter (votes_yes h p) ns. vote_weight n)"
  "no_weight (quantum_vote h ns p) = (\<Sum>n\<leftarrow>filter (\<lambda>n. \<not> votes_yes h p n) ns. vote_weight n)"
  "approved (quantum_vote h ns p) \<longleftrightarrow>
     no_weight (quantum_vote h ns p) < yes_weight (quantum_vote h ns p)"
  "algorithm (quantum_vote h ns p) = ''quantum_vote''"
proof -
  have v: "(\<lambda>n. h (p @ node_id n) mod 2 = 0) = votes_yes h p"
    by (auto simp add: votes_yes_def fun_eq_iff even_iff_mod_2_eq_zero)
  have w: "(\<lambda>n. if layer n = QUANTUM then phi_weight n else weight n) = vote_weight"
    by (simp add: vote_weight_def phi_weight_def fun_eq_iff)
  show "yes_weight (quantum_vote h ns p) = (\<Sum>n\<leftarrow>filter (votes_yes h p) ns. vote_weight n)"
    by (simp add: quantum_vote_def Let_def votes_filter_yes py_sum_sum_list v [symmetric] w [symmetric])
  show "no_weight (quantum_vote h ns p) = (\<Sum>n\<leftarrow>filter (\<lambda>n. \<not> votes_yes h p n) ns. vote_weight n)"
    by (simp add: quantum_vote_def Let_def votes_filter_no py_sum_sum_list v [symmetric] w [symmetric])
  show "approved (quantum_vote h ns p) \<longleftrightarrow>
     no_weight (quantum_vote h ns p) < yes_weight (quantum_vote h ns p)"
    by (simp add: quantum_vote_def Let_def)
  show "algorithm (quantum_vote h ns p) = ''quantum_vote''"
    by (simp add: quantum_vote_def Let_def)
qed

text \<open>
  Claim C4. For every list of nodes, every proposal and every hash, the yes weight of
  \<^verbatim>\<open>quantum_vote\<close> is the sum, over the nodes that vote yes, of the derived weight
  (weight * PHI) for a quantum node and of the plain weight for any other node; the no
  weight is the same sum over the nodes that vote no; the proposal is approved if and only
  if the yes weight is strictly greater than the no weight, so that a tie is not approved.
\<close>

theorem quantum_vote_approved:
  "yes_weight (quantum_vote h ns p) = (\<Sum>n\<leftarrow>filter (votes_yes h p) ns. vote_weight n)
   \<and> no_weight (quantum_vote h ns p) = (\<Sum>n\<leftarrow>filter (\<lambda>n. \<not> votes_yes h p n) ns. vote_weight n)
   \<and> (approved (quantum_vote h ns p) \<longleftrightarrow>
        yes_weight (quantum_vote h ns p) > no_weight (quantum_vote h ns p))
   \<and> (yes_weight (quantum_vote h ns p) = no_weight (quantum_vote h ns p)
        \<longrightarrow> \<not> approved (quantum_vote h ns p))
   \<and> algorithm (quantum_vote h ns p) = ''quantum_vote''"
  by (simp add: quantum_vote_weights)

theorem quantum_vote_approved_witness:
  "yes_weight (quantum_vote example_hash example_pair ''p'') = 1
   \<and> no_weight (quantum_vote example_hash example_pair ''p'') = 1
   \<and> \<not> approved (quantum_vote example_hash example_pair ''p'')"
proof -
  let ?r = "quantum_vote example_hash example_pair ''p''"
  from quantum_vote_approved [of example_hash example_pair "''p''"]
  have y: "yes_weight ?r = (\<Sum>n\<leftarrow>filter (votes_yes example_hash ''p'') example_pair. vote_weight n)"
    and n: "no_weight ?r =
      (\<Sum>n\<leftarrow>filter (\<lambda>n. \<not> votes_yes example_hash ''p'' n) example_pair. vote_weight n)"
    and t: "yes_weight ?r = no_weight ?r \<longrightarrow> \<not> approved ?r"
    by blast+
  have y1: "yes_weight ?r = 1"
    unfolding y
    by (simp add: example_pair_def new_SwarmNode_def votes_yes_def example_hash_def
        vote_weight_def)
  have n1: "no_weight ?r = 1"
    unfolding n
    by (simp add: example_pair_def new_SwarmNode_def votes_yes_def example_hash_def
        vote_weight_def)
  from t y1 n1 show ?thesis by simp
qed

section \<open>Entanglement construction\<close>

subsection \<open>The loops as maps\<close>

lemma link_adjacent_append: "link_adjacent ids i ent = ent @ link_adjacent ids i []"
  by (simp add: link_adjacent_def Let_def)

lemma set_link_quantum:
  "set (link_quantum d nid ent) =
     set ent \<union> {k. \<exists>n. (k, n) \<in> set d \<and> layer n = QUANTUM \<and> k \<noteq> nid}"
  by (induction d nid ent rule: link_quantum.induct) auto

lemma distinct_link_quantum: "distinct ent \<Longrightarrow> distinct (link_quantum d nid ent)"
  by (induction d nid ent rule: link_quantum.induct) auto

text \<open>The inner loop reads the keys and the layers of the dictionary and nothing else.\<close>

lemma link_quantum_cong:
  "map (\<lambda>kn. (fst kn, layer (snd kn))) d = map (\<lambda>kn. (fst kn, layer (snd kn))) d' \<Longrightarrow>
     link_quantum d nid ent = link_quantum d' nid ent"
proof (induction d nid ent arbitrary: d' rule: link_quantum.induct)
  case (1 nid ent)
  then show ?case by simp
next
  case (2 other_id other items nid ent)
  then obtain k' n' items' where d': "d' = (k', n') # items'"
    by (cases d') auto
  with "2.prems" have eq: "k' = other_id" "layer n' = layer other"
    and rest: "map (\<lambda>kn. (fst kn, layer (snd kn))) items = map (\<lambda>kn. (fst kn, layer (snd kn))) items'"
    by simp_all
  show ?case
    unfolding d' using "2.IH" [OF rest] eq by simp
qed

lemma entangle_node_cong:
  "map (\<lambda>kn. (fst kn, layer (snd kn))) d = map (\<lambda>kn. (fst kn, layer (snd kn))) d' \<Longrightarrow>
     entangle_node d ids i node = entangle_node d' ids i node"
  by (simp add: entangle_node_def Let_def link_quantum_cong [of d d'])

lemma layer_entangle_node: "layer (entangle_node d ids i node) = layer node"
  by (simp add: entangle_node_def Let_def)

lemma entangle_loop:
  "j \<le> length d \<Longrightarrow>
     length (foldl (entangle_step ids) d [0..<j]) = length d
     \<and> (\<forall>i < length d. foldl (entangle_step ids) d [0..<j] ! i =
          (if i < j then (fst (d ! i), entangle_node d ids i (snd (d ! i))) else d ! i))"
proof (induction j)
  case 0
  then show ?case by simp
next
  case (Suc j)
  let ?F = "foldl (entangle_step ids) d [0..<j]"
  from Suc have len: "length ?F = length d"
    and nth: "\<And>i. i < length d \<Longrightarrow>
        ?F ! i = (if i < j then (fst (d ! i), entangle_node d ids i (snd (d ! i))) else d ! i)"
    and j: "j < length d"
    by simp_all
  have view: "map (\<lambda>kn. (fst kn, layer (snd kn))) ?F = map (\<lambda>kn. (fst kn, layer (snd kn))) d"
    by (rule nth_equalityI) (simp_all add: len nth layer_entangle_node)
  have step: "foldl (entangle_step ids) d [0..<Suc j] =
      ?F[j := (fst (d ! j), entangle_node d ids j (snd (d ! j)))]"
    using j by (simp add: entangle_step_def nth entangle_node_cong [OF view])
  show ?case
    unfolding step using len j by (auto simp add: nth nth_list_update)
qed

lemma nodes_build_entanglement:
  "nodes (build_entanglement e) =
     map (\<lambda>i. (fst (nodes e ! i),
                entangle_node (nodes e) (dict_keys (nodes e)) i (snd (nodes e ! i))))
       [0..<length (nodes e)]"
  using entangle_loop [of "length (nodes e)" "nodes e" "dict_keys (nodes e)"]
  by (intro nth_equalityI) (simp_all add: build_entanglement_def Let_def)

lemma set_entangle_node:
  "set (entanglement (entangle_node d ids i node)) =
     set (entanglement node) \<union> set (link_adjacent ids i [])
     \<union> (if layer node = QUANTUM
        then {k. \<exists>n. (k, n) \<in> set d \<and> layer n = QUANTUM \<and> k \<noteq> node_id node} else {})"
  by (simp add: entangle_node_def Let_def set_link_quantum link_adjacent_append [of ids i "entanglement node"])

subsection \<open>The dictionary of an engine\<close>

lemma dict_set_new: "k \<notin> fst ` set d \<Longrightarrow> dict_set d k v = d @ [(k, v)]"
  by (induction d k v rule: dict_set.induct) auto

lemma foldl_dict_set_distinct:
  "distinct (map node_id ns) \<Longrightarrow> node_id ` set ns \<inter> fst ` set d = {} \<Longrightarrow>
     foldl (\<lambda>d n. dict_set d (node_id n) n) d ns = d @ map (\<lambda>n. (node_id n, n)) ns"
proof (induction ns arbitrary: d)
  case Nil
  then show ?case by simp
next
  case (Cons n ns)
  from Cons.prems have new: "node_id n \<notin> fst ` set d" by auto
  have "node_id ` set ns \<inter> fst ` set (d @ [(node_id n, n)]) = {}"
    using Cons.prems by auto
  with Cons.prems Cons.IH [of "d @ [(node_id n, n)]"] show ?case
    by (simp add: dict_set_new [OF new])
qed

lemma nodes_dict_distinct:
  "distinct (map node_id ns) \<Longrightarrow> nodes_dict ns = map (\<lambda>n. (node_id n, n)) ns"
  using foldl_dict_set_distinct [of ns "[]"] by (simp add: nodes_dict_def)

subsection \<open>Ring neighbours and quantum clique\<close>

lemma ring_neighbours_image:
  "ring_neighbours ns i =
     (\<lambda>j. node_id (ns ! j)) ` {j. j < length ns \<and> (Suc j = i \<or> j = Suc i)}"
  by (auto simp add: ring_neighbours_def)

lemma ring_positions_both:
  "0 < i \<Longrightarrow> Suc i < n \<Longrightarrow> {j. j < n \<and> (Suc j = i \<or> j = Suc i)} = {i - 1, Suc i}"
  by (rule set_eqI) (simp only: mem_Collect_eq insert_iff empty_iff, arith)

lemma ring_positions_left:
  "0 < i \<Longrightarrow> i < n \<Longrightarrow> \<not> Suc i < n \<Longrightarrow> {j. j < n \<and> (Suc j = i \<or> j = Suc i)} = {i - 1}"
  by (rule set_eqI) (simp only: mem_Collect_eq insert_iff empty_iff, arith)

lemma ring_positions_right:
  "1 < n \<Longrightarrow> {j. j < n \<and> (Suc j = 0 \<or> j = Suc 0)} = {Suc 0}"
  by (rule set_eqI) (simp only: mem_Collect_eq insert_iff empty_iff, arith)

lemma ring_positions_none:
  "\<not> 1 < n \<Longrightarrow> {j. j < n \<and> (Suc j = 0 \<or> j = Suc 0)} = {}"
  by (rule set_eqI) (simp only: mem_Collect_eq insert_iff empty_iff, arith)

lemma set_link_adjacent:
  assumes "i < length ns"
  shows "set (link_adjacent (map node_id ns) i []) = ring_neighbours ns i"
proof (cases "0 < i")
  case True
  show ?thesis
  proof (cases "Suc i < length ns")
    case True
    with \<open>0 < i\<close> assms show ?thesis
      unfolding ring_neighbours_image ring_positions_both [OF \<open>0 < i\<close> True]
      by (simp add: link_adjacent_def Let_def)
  next
    case False
    with \<open>0 < i\<close> assms show ?thesis
      unfolding ring_neighbours_image ring_positions_left [OF \<open>0 < i\<close> assms False]
      by (simp add: link_adjacent_def Let_def)
  qed
next
  case False
  then have i: "i = 0" by simp
  show ?thesis
  proof (cases "1 < length ns")
    case True
    then show ?thesis
      unfolding i ring_neighbours_image ring_positions_right [OF True]
      by (simp add: link_adjacent_def Let_def)
  next
    case False
    then show ?thesis
      unfolding i ring_neighbours_image ring_positions_none [OF False]
      by (simp add: link_adjacent_def Let_def)
  qed
qed

lemma ring_neighbours_first:
  assumes "2 \<le> length ns"
  shows "ring_neighbours ns 0 = {node_id (ns ! 1)}"
proof -
  from assms have a: "1 < length ns" by simp
  show ?thesis
    unfolding ring_neighbours_image ring_positions_right [OF a] by simp
qed

lemma ring_neighbours_last:
  assumes "2 \<le> length ns"
  shows "ring_neighbours ns (length ns - 1) = {node_id (ns ! (length ns - 2))}"
proof -
  from assms have a: "0 < length ns - 1" "length ns - 1 < length ns"
    "\<not> Suc (length ns - 1) < length ns" "length ns - 1 - 1 = length ns - 2"
    by simp_all
  show ?thesis
    unfolding ring_neighbours_image ring_positions_left [OF a(1,2,3)] a(4) by simp
qed

lemma ring_neighbours_interior:
  assumes "0 < i" and "i < length ns - 1"
  shows "ring_neighbours ns i = {node_id (ns ! (i - 1)), node_id (ns ! (i + 1))}"
proof -
  from assms have a: "Suc i < length ns" by simp
  show ?thesis
    unfolding ring_neighbours_image ring_positions_both [OF assms(1) a] by simp
qed

lemma node_id_inj:
  "distinct (map node_id ns) \<Longrightarrow> i < length ns \<Longrightarrow> j < length ns \<Longrightarrow>
     node_id (ns ! i) = node_id (ns ! j) \<longleftrightarrow> i = j"
  using nth_eq_iff_index_eq [of "map node_id ns" i j] by simp

lemma clique_keys:
  "{k. \<exists>n. (k, n) \<in> set (map (\<lambda>n. (node_id n, n)) ns) \<and> layer n = QUANTUM \<and> k \<noteq> nid} =
     set (map node_id (filter (\<lambda>m. layer m = QUANTUM \<and> node_id m \<noteq> nid) ns))"
  by force

lemma nodes_new_FlashSyncEngine:
  assumes "distinct (map node_id ns)"
  shows "nodes (new_FlashSyncEngine ns) =
     map (\<lambda>i. (node_id (ns ! i),
                entangle_node (map (\<lambda>n. (node_id n, n)) ns) (map node_id ns) i (ns ! i)))
       [0..<length ns]"
  by (simp add: new_FlashSyncEngine_def nodes_build_entanglement nodes_dict_distinct [OF assms]
      dict_keys_def comp_def)

lemma entanglement_new_FlashSyncEngine:
  assumes "distinct (map node_id ns)" and "i < length ns"
  shows "set (entanglement (snd (nodes (new_FlashSyncEngine ns) ! i))) =
     set (entanglement (ns ! i)) \<union> ring_neighbours ns i \<union> quantum_clique ns i"
proof -
  let ?d = "map (\<lambda>n. (node_id n, n)) ns"
  have "snd (nodes (new_FlashSyncEngine ns) ! i) = entangle_node ?d (map node_id ns) i (ns ! i)"
    using assms(2) by (simp add: nodes_new_FlashSyncEngine [OF assms(1)])
  then have "set (entanglement (snd (nodes (new_FlashSyncEngine ns) ! i))) =
      set (entanglement (ns ! i)) \<union> set (link_adjacent (map node_id ns) i [])
      \<union> (if layer (ns ! i) = QUANTUM
         then {k. \<exists>n. (k, n) \<in> set ?d \<and> layer n = QUANTUM \<and> k \<noteq> node_id (ns ! i)} else {})"
    by (simp only: set_entangle_node)
  then show ?thesis
    by (simp only: clique_keys set_link_adjacent [OF assms(2)] quantum_clique_def)
qed

text \<open>
  Claim C5. Let the identities of the matrix be unique, and let the nodes be fresh, that
  is with the empty entanglement list the dataclass gives them. After the construction of
  an engine the keys are the identities in matrix order, and the entanglement of the node
  at each position is, as a set, its ring neighbours together with its quantum clique. For
  a matrix of length at least 2 the first position has the single ring neighbour at
  position 1, the last position the single ring neighbour at position \<open>n - 2\<close>, and every
  interior position the two distinct ring neighbours at \<open>i - 1\<close> and \<open>i + 1\<close>. Any two
  distinct quantum nodes are entangled with each other, wherever they stand.
\<close>

theorem entanglement_ring_and_clique:
  assumes "distinct (map node_id ns)"
    and "\<forall>n \<in> set ns. entanglement n = []"
  shows "dict_keys (nodes (new_FlashSyncEngine ns)) = map node_id ns
    \<and> (\<forall>i < length ns.
          set (entanglement (snd (nodes (new_FlashSyncEngine ns) ! i))) =
            ring_neighbours ns i \<union> quantum_clique ns i)
    \<and> (2 \<le> length ns \<longrightarrow>
          ring_neighbours ns 0 = {node_id (ns ! 1)}
        \<and> ring_neighbours ns (length ns - 1) = {node_id (ns ! (length ns - 2))}
        \<and> (\<forall>i. 0 < i \<and> i < length ns - 1 \<longrightarrow>
              ring_neighbours ns i = {node_id (ns ! (i - 1)), node_id (ns ! (i + 1))}
            \<and> card (ring_neighbours ns i) = 2))
    \<and> (\<forall>i < length ns. \<forall>j < length ns.
          i \<noteq> j \<and> layer (ns ! i) = QUANTUM \<and> layer (ns ! j) = QUANTUM \<longrightarrow>
            node_id (ns ! j) \<in> set (entanglement (snd (nodes (new_FlashSyncEngine ns) ! i)))
          \<and> node_id (ns ! i) \<in> set (entanglement (snd (nodes (new_FlashSyncEngine ns) ! j))))"
proof (intro conjI)
  show "dict_keys (nodes (new_FlashSyncEngine ns)) = map node_id ns"
    by (rule nth_equalityI) (simp_all add: dict_keys_def nodes_new_FlashSyncEngine [OF assms(1)])
  have ent: "set (entanglement (snd (nodes (new_FlashSyncEngine ns) ! i))) =
      ring_neighbours ns i \<union> quantum_clique ns i" if "i < length ns" for i
    using entanglement_new_FlashSyncEngine [OF assms(1) that] assms(2) that by simp
  then show "\<forall>i < length ns.
          set (entanglement (snd (nodes (new_FlashSyncEngine ns) ! i))) =
            ring_neighbours ns i \<union> quantum_clique ns i"
    by blast
  show "2 \<le> length ns \<longrightarrow>
          ring_neighbours ns 0 = {node_id (ns ! 1)}
        \<and> ring_neighbours ns (length ns - 1) = {node_id (ns ! (length ns - 2))}
        \<and> (\<forall>i. 0 < i \<and> i < length ns - 1 \<longrightarrow>
              ring_neighbours ns i = {node_id (ns ! (i - 1)), node_id (ns ! (i + 1))}
            \<and> card (ring_neighbours ns i) = 2)"
  proof (intro impI conjI allI)
    assume n: "2 \<le> length ns"
    show "ring_neighbours ns 0 = {node_id (ns ! 1)}"
      using n by (rule ring_neighbours_first)
    show "ring_neighbours ns (length ns - 1) = {node_id (ns ! (length ns - 2))}"
      using n by (rule ring_neighbours_last)
    fix i assume i: "0 < i \<and> i < length ns - 1"
    then show r: "ring_neighbours ns i = {node_id (ns ! (i - 1)), node_id (ns ! (i + 1))}"
      by (simp add: ring_neighbours_interior)
    from i have b: "i - 1 < length ns" "i + 1 < length ns" "i - 1 \<noteq> i + 1"
      by arith+
    have "node_id (ns ! (i - 1)) \<noteq> node_id (ns ! (i + 1))"
      using node_id_inj [OF assms(1) b(1,2)] b(3) by blast
    then show "card (ring_neighbours ns i) = 2"
      by (simp add: r)
  qed
  show "\<forall>i < length ns. \<forall>j < length ns.
          i \<noteq> j \<and> layer (ns ! i) = QUANTUM \<and> layer (ns ! j) = QUANTUM \<longrightarrow>
            node_id (ns ! j) \<in> set (entanglement (snd (nodes (new_FlashSyncEngine ns) ! i)))
          \<and> node_id (ns ! i) \<in> set (entanglement (snd (nodes (new_FlashSyncEngine ns) ! j)))"
  proof (intro allI impI)
    fix i j assume i: "i < length ns" and j: "j < length ns"
      and q: "i \<noteq> j \<and> layer (ns ! i) = QUANTUM \<and> layer (ns ! j) = QUANTUM"
    have clique: "node_id (ns ! b) \<in> quantum_clique ns a"
      if "a < length ns" "b < length ns" "a \<noteq> b" "layer (ns ! a) = QUANTUM" "layer (ns ! b) = QUANTUM"
      for a b
    proof -
      from that have "node_id (ns ! b) \<noteq> node_id (ns ! a)"
        using node_id_inj [OF assms(1), of b a] by simp
      with that show ?thesis
        by (auto simp add: quantum_clique_def)
    qed
    from clique [of i j] clique [of j i] i j q ent [of i] ent [of j]
    show "node_id (ns ! j) \<in> set (entanglement (snd (nodes (new_FlashSyncEngine ns) ! i)))
          \<and> node_id (ns ! i) \<in> set (entanglement (snd (nodes (new_FlashSyncEngine ns) ! j)))"
      by simp
  qed
qed

lemma upt_3: "[0..<3] = [0, 1, 2]"
  by code_simp

theorem entanglement_ring_and_clique_witness:
  "distinct (map node_id example_matrix)
   \<and> map entanglement example_matrix = [[], [], []]
   \<and> dict_keys (nodes (new_FlashSyncEngine example_matrix)) = [''A'', ''B'', ''C'']
   \<and> set (entanglement (snd (nodes (new_FlashSyncEngine example_matrix) ! 0))) = {''B''}
   \<and> set (entanglement (snd (nodes (new_FlashSyncEngine example_matrix) ! 1))) = {''A'', ''C''}
   \<and> set (entanglement (snd (nodes (new_FlashSyncEngine example_matrix) ! 2))) = {''B''}"
proof -
  have h1: "distinct (map node_id example_matrix)"
    by (simp add: example_matrix_def new_SwarmNode_def)
  have h2: "\<forall>n \<in> set example_matrix. entanglement n = []"
    by (simp add: example_matrix_def new_SwarmNode_def)
  have len: "length example_matrix = 3"
    by (simp add: example_matrix_def)
  have ids: "map node_id example_matrix = [''A'', ''B'', ''C'']"
    by (simp add: example_matrix_def new_SwarmNode_def)
  have r: "ring_neighbours example_matrix 0 = {''B''}"
    "ring_neighbours example_matrix 1 = {''A'', ''C''}"
    "ring_neighbours example_matrix 2 = {''B''}"
    by (simp_all add: ring_neighbours_def example_matrix_def new_SwarmNode_def upt_3
        insert_commute)
  have q: "quantum_clique example_matrix 0 = {}"
    "quantum_clique example_matrix 1 = {''C''}"
    "quantum_clique example_matrix 2 = {''B''}"
    by (simp_all add: quantum_clique_def example_matrix_def new_SwarmNode_def)
  note inst = entanglement_ring_and_clique [OF h1 h2]
  have keys: "dict_keys (nodes (new_FlashSyncEngine example_matrix)) = map node_id example_matrix"
    by (rule inst [THEN conjunct1])
  have ent: "set (entanglement (snd (nodes (new_FlashSyncEngine example_matrix) ! i))) =
      ring_neighbours example_matrix i \<union> quantum_clique example_matrix i"
    if "i < length example_matrix" for i
    using inst [THEN conjunct2, THEN conjunct1] that by blast
  have e0: "set (entanglement (snd (nodes (new_FlashSyncEngine example_matrix) ! 0))) = {''B''}"
  proof -
    have "0 < length example_matrix" by (simp add: len)
    then show ?thesis by (simp only: ent r q) auto
  qed
  have e1: "set (entanglement (snd (nodes (new_FlashSyncEngine example_matrix) ! 1))) = {''A'', ''C''}"
  proof -
    have "1 < length example_matrix" by (simp add: len)
    then show ?thesis by (simp only: ent r q) auto
  qed
  have e2: "set (entanglement (snd (nodes (new_FlashSyncEngine example_matrix) ! 2))) = {''B''}"
  proof -
    have "2 < length example_matrix" by (simp add: len)
    then show ?thesis by (simp only: ent r q) auto
  qed
  have h2': "map entanglement example_matrix = [[], [], []]"
    by (simp add: example_matrix_def new_SwarmNode_def)
  from h1 h2' keys ids e0 e1 e2 show ?thesis by (simp only: simp_thms)
qed

subsection \<open>Running the construction again\<close>

lemma nodes_example_pair:
  "nodes (new_FlashSyncEngine example_pair) =
     [(''A'', (new_SwarmNode ''A'' ''Analyzer'' INTELLIGENCE 1)\<lparr>entanglement := [''B'']\<rparr>),
      (''B'', (new_SwarmNode ''B'' ''Builder'' INFRASTRUCTURE 1)\<lparr>entanglement := [''A'']\<rparr>)]"
  by (simp add: new_FlashSyncEngine_def build_entanglement_def nodes_dict_def dict_keys_def
      example_pair_def new_SwarmNode_def entangle_step_def entangle_node_def
      link_adjacent_def upt_rec [of 0] upt_rec [of 1])

lemma nodes_build_entanglement_foldl:
  "nodes (build_entanglement e) =
     foldl (entangle_step (dict_keys (nodes e))) (nodes e) [0..<length (nodes e)]"
  by (simp add: build_entanglement_def Let_def)

lemma nodes_new_FlashSyncEngine_foldl:
  "nodes (new_FlashSyncEngine ns) =
     foldl (entangle_step (dict_keys (nodes_dict ns))) (nodes_dict ns) [0..<length (nodes_dict ns)]"
  by (simp add: new_FlashSyncEngine_def nodes_build_entanglement_foldl)

lemma nodes_build_entanglement_again:
  "nodes (build_entanglement (new_FlashSyncEngine example_pair)) =
     [(''A'', (new_SwarmNode ''A'' ''Analyzer'' INTELLIGENCE 1)\<lparr>entanglement := [''B'', ''B'']\<rparr>),
      (''B'', (new_SwarmNode ''B'' ''Builder'' INFRASTRUCTURE 1)\<lparr>entanglement := [''A'', ''A'']\<rparr>)]"
  unfolding nodes_build_entanglement_foldl nodes_example_pair
  by (simp add: dict_keys_def new_SwarmNode_def entangle_step_def entangle_node_def
      link_adjacent_def upt_rec [of 0] upt_rec [of 1])

lemma nodes_second_engine:
  "nodes (new_FlashSyncEngine
      [(new_SwarmNode ''A'' ''Analyzer'' INTELLIGENCE 1)\<lparr>entanglement := [''B'']\<rparr>,
       (new_SwarmNode ''B'' ''Builder'' INFRASTRUCTURE 1)\<lparr>entanglement := [''A'']\<rparr>]) =
     [(''A'', (new_SwarmNode ''A'' ''Analyzer'' INTELLIGENCE 1)\<lparr>entanglement := [''B'', ''B'']\<rparr>),
      (''B'', (new_SwarmNode ''B'' ''Builder'' INFRASTRUCTURE 1)\<lparr>entanglement := [''A'', ''A'']\<rparr>)]"
  by (simp add: new_FlashSyncEngine_def build_entanglement_def nodes_dict_def dict_keys_def
      new_SwarmNode_def entangle_step_def entangle_node_def
      link_adjacent_def upt_rec [of 0] upt_rec [of 1])

text \<open>
  Claim C6 against the code. The first construction over two fresh plain nodes \<open>A\<close> and \<open>B\<close>
  links each to the other. Running \<^verbatim>\<open>_build_entanglement\<close> once more on that engine, or
  building a second engine over the same node objects, appends the ring neighbour again:
  the entanglement of \<open>A\<close> is then \<open>[B, B]\<close>, with a duplicate identity.
\<close>

theorem build_entanglement_again_duplicates:
  "map entanglement (dict_values (nodes (new_FlashSyncEngine example_pair)))
     = [[''B''], [''A'']]
   \<and> map entanglement
       (dict_values (nodes (build_entanglement (new_FlashSyncEngine example_pair))))
     = [[''B'', ''B''], [''A'', ''A'']]
   \<and> map entanglement
       (dict_values (nodes (new_FlashSyncEngine
          (dict_values (nodes (new_FlashSyncEngine example_pair))))))
     = [[''B'', ''B''], [''A'', ''A'']]
   \<and> \<not> distinct [''B'', ''B'']"
  by (simp add: nodes_example_pair nodes_build_entanglement_again dict_values_def
      nodes_second_engine)

subsection \<open>What a second construction keeps\<close>

lemma quantum_keys_view:
  "{k. \<exists>n. (k, n) \<in> set d \<and> layer n = QUANTUM \<and> k \<noteq> nid} =
     {k. (k, QUANTUM) \<in> set (map (\<lambda>kn. (fst kn, layer (snd kn))) d) \<and> k \<noteq> nid}"
  by force

lemma node_id_entangle_node: "node_id (entangle_node d ids i node) = node_id node"
  by (simp add: entangle_node_def Let_def)

lemma length_nodes_build_entanglement:
  "length (nodes (build_entanglement e)) = length (nodes e)"
  by (simp add: nodes_build_entanglement)

lemma view_build_entanglement:
  "map (\<lambda>kn. (fst kn, layer (snd kn))) (nodes (build_entanglement e)) =
     map (\<lambda>kn. (fst kn, layer (snd kn))) (nodes e)"
  by (rule nth_equalityI) (simp_all add: nodes_build_entanglement layer_entangle_node)

lemma keys_build_entanglement:
  "dict_keys (nodes (build_entanglement e)) = dict_keys (nodes e)"
  by (rule nth_equalityI) (simp_all add: nodes_build_entanglement dict_keys_def)

lemma entanglement_build_entanglement:
  assumes "i < length (nodes e)"
  shows "set (entanglement (snd (nodes (build_entanglement e) ! i))) =
     set (entanglement (snd (nodes e ! i))) \<union> set (link_adjacent (dict_keys (nodes e)) i [])
     \<union> (if layer (snd (nodes e ! i)) = QUANTUM
        then {k. (k, QUANTUM) \<in> set (map (\<lambda>kn. (fst kn, layer (snd kn))) (nodes e))
               \<and> k \<noteq> node_id (snd (nodes e ! i))}
        else {})"
  using assms by (simp add: nodes_build_entanglement set_entangle_node quantum_keys_view)

text \<open>
  Running the construction again leaves every entanglement the same as a set: the second
  run adds nothing new, it only repeats links.
\<close>

lemma build_entanglement_again_same_sets:
  "map (\<lambda>n. set (entanglement n)) (dict_values (nodes (build_entanglement (build_entanglement e))))
     = map (\<lambda>n. set (entanglement n)) (dict_values (nodes (build_entanglement e)))"
proof (rule nth_equalityI)
  show "length (map (\<lambda>n. set (entanglement n))
          (dict_values (nodes (build_entanglement (build_entanglement e))))) =
        length (map (\<lambda>n. set (entanglement n)) (dict_values (nodes (build_entanglement e))))"
    by (simp add: dict_values_def length_nodes_build_entanglement)
next
  fix i
  assume "i < length (map (\<lambda>n. set (entanglement n))
          (dict_values (nodes (build_entanglement (build_entanglement e)))))"
  then have i: "i < length (nodes e)"
    by (simp add: dict_values_def length_nodes_build_entanglement)
  then have i1: "i < length (nodes (build_entanglement e))"
    by (simp add: length_nodes_build_entanglement)
  have same: "layer (snd (nodes (build_entanglement e) ! i)) = layer (snd (nodes e ! i))"
    "node_id (snd (nodes (build_entanglement e) ! i)) = node_id (snd (nodes e ! i))"
    using i by (simp_all add: nodes_build_entanglement layer_entangle_node node_id_entangle_node)
  have "set (entanglement (snd (nodes (build_entanglement (build_entanglement e)) ! i))) =
      set (entanglement (snd (nodes (build_entanglement e) ! i)))"
    unfolding entanglement_build_entanglement [OF i1] keys_build_entanglement
      view_build_entanglement same
    unfolding entanglement_build_entanglement [OF i]
    by auto
  with i i1 show "map (\<lambda>n. set (entanglement n))
          (dict_values (nodes (build_entanglement (build_entanglement e)))) ! i =
        map (\<lambda>n. set (entanglement n)) (dict_values (nodes (build_entanglement e))) ! i"
    by (simp add: dict_values_def length_nodes_build_entanglement)
qed

text \<open>The first construction over fresh nodes with unique identities leaves no duplicate.\<close>

lemma distinct_link_adjacent:
  assumes "distinct ids" and "i < length ids"
  shows "distinct (link_adjacent ids i [])"
proof -
  have "ids ! (i - 1) \<noteq> ids ! (i + 1)" if "0 < i" "i + 1 < length ids"
  proof -
    from that have "i - 1 < length ids" "i - 1 \<noteq> i + 1" by arith+
    with assms(1) that(2) show ?thesis
      by (simp add: nth_eq_iff_index_eq)
  qed
  then show ?thesis
    by (auto simp add: link_adjacent_def Let_def)
qed

lemma first_construction_distinct:
  assumes "distinct (map node_id ns)" and "\<forall>n \<in> set ns. entanglement n = []"
    and "i < length ns"
  shows "distinct (entanglement (snd (nodes (new_FlashSyncEngine ns) ! i)))"
proof -
  from assms(2,3) have fresh: "entanglement (ns ! i) = []" by simp
  have d: "distinct (link_adjacent (map node_id ns) i [])"
    using assms(1,3) by (intro distinct_link_adjacent) simp_all
  show ?thesis
    using assms(3) d
    by (simp add: nodes_new_FlashSyncEngine [OF assms(1)] entangle_node_def Let_def fresh
        distinct_link_quantum)
qed

section \<open>Full flash sync\<close>

subsection \<open>One cascade raises the weighted total\<close>













subsection \<open>The four stages\<close>









end
